theory Spec2Isabelle
  imports Main
begin

section \<open>The drawing-board room server (backend/main.py)\<close>

text \<open>
  A shallow embedding of the room lifecycle of \<^verbatim>\<open>backend/main.py\<close>. Every endpoint is
  a function from the registry \<^verbatim>\<open>rooms_db\<close> (and the request's arguments) to the
  response and the registry afterwards. Whatever the code draws from its environment is
  an argument of the model: the random token of a room code, the uuid of a new player,
  the index \<^verbatim>\<open>random.choice\<close> picks, the clock, and the dictionary
  \<^verbatim>\<open>call_gemini_judge\<close> returns.
\<close>

subsection \<open>Constants and game configuration\<close>

definition MAX_PLAYERS_PER_ROOM :: int where
  "MAX_PLAYERS_PER_ROOM = 6"

definition MIN_PLAYERS_TO_START :: int where
  "MIN_PLAYERS_TO_START = 2"

definition ROOM_CODE_LENGTH :: nat where
  "ROOM_CODE_LENGTH = 6"

definition ROUND_DURATION_SECONDS :: int where
  "ROUND_DURATION_SECONDS = 100"

definition PREDEFINED_TOPICS :: "string list" where
  "PREDEFINED_TOPICS =
    [''Apple'', ''Banana'', ''Car'', ''Dog'', ''Elephant'', ''Flower'', ''Guitar'', ''House'',
     ''Ice Cream'', ''Jacket'', ''Kite'', ''Lion'', ''Moon'', ''Ninja'', ''Octopus'', ''Pizza'',
     ''Queen'', ''Robot'', ''Sun'', ''Tree'', ''Umbrella'', ''Volcano'', ''Watch'', ''Xylophone'',
     ''Yacht'', ''Zebra'', ''Book'', ''Chair'', ''Cloud'', ''Dragon'', ''Fish'', ''Ghost'']"

subsection \<open>Models and enums\<close>

text \<open>\<^verbatim>\<open>Player\<close>: the fields \<^verbatim>\<open>id\<close> and \<^verbatim>\<open>name\<close>.\<close>

record Player =
  p_id :: string
  p_name :: string

datatype GamePhase = LOBBY | DRAWING | ROUND_TRANSITION | GAME_OVER

record SubmittedDrawing =
  drawer_id :: string
  drawer_name :: string
  topic :: string
  image_b64 :: string

text \<open>
  The dictionary stored in \<^verbatim>\<open>judgment_result\<close>. Both places that build it give it
  the same three keys, so it is never the empty dictionary.
\<close>

record Judgment =
  summary :: string
  winner_id :: string
  winner_name :: string

text \<open>
  A \<^verbatim>\<open>datetime\<close> is the number of microseconds since the epoch (the code only
  uses aware UTC values and their difference).
\<close>

type_synonym datetime = int

record Room =
  name :: string
  code :: string
  host_id :: string
  players :: "Player list"
  max_players :: int
  game_phase :: GamePhase
  current_topic :: "string option"
  round_start_time :: "datetime option"
  round_duration_seconds :: int
  submitted_drawings :: "SubmittedDrawing list"
  judgment_result :: "Judgment option"

text \<open>
  What a request raises: the \<^verbatim>\<open>HTTPException\<close>s with status 404, 403 and 400, the
  \<^verbatim>\<open>HTTPException\<close> with status 200 that \<^verbatim>\<open>leave_room\<close> raises when it closes a
  room, and the \<^verbatim>\<open>StopIteration\<close> of a \<^verbatim>\<open>next\<close> without default.
\<close>

datatype error = NotFound | Forbidden | BadRequest | RoomClosed | StopIteration

text \<open>The in-memory database \<^verbatim>\<open>rooms_db: Dict[str, Room]\<close>.\<close>

type_synonym rooms_db = "string \<rightharpoonup> Room"

type_synonym response = "error + Room"

subsection \<open>Strings\<close>

text \<open>
  \<^verbatim>\<open>str.upper\<close> on the ASCII letters; every other character is kept (room codes are
  made of the URL-safe base64 alphabet).
\<close>

definition upper_char :: "char \<Rightarrow> char" where
  "upper_char c =
     (case map_of (zip ''abcdefghijklmnopqrstuvwxyz'' ''ABCDEFGHIJKLMNOPQRSTUVWXYZ'') c of
        None \<Rightarrow> c
      | Some u \<Rightarrow> u)"

definition upper :: "string \<Rightarrow> string" where
  "upper s = map upper_char s"

definition replace_char :: "char \<Rightarrow> char \<Rightarrow> string \<Rightarrow> string" where
  "replace_char old new s = map (\<lambda>c. if c = old then new else c) s"

text \<open>
  Python's \<^verbatim>\<open>x or default\<close> on an optional string: \<^verbatim>\<open>None\<close> and the empty
  string are both falsy.
\<close>

definition str_or :: "string option \<Rightarrow> string \<Rightarrow> string" where
  "str_or x dflt = (case x of None \<Rightarrow> dflt | Some s \<Rightarrow> if s = [] then dflt else s)"

subsection \<open>Room codes and player lookup\<close>

text \<open>
  One candidate of \<^verbatim>\<open>generate_room_code\<close>, from the token
  \<^verbatim>\<open>secrets.token_urlsafe(ROOM_CODE_LENGTH // 2 + 1)\<close>.
\<close>

definition room_code_of_token :: "string \<Rightarrow> string" where
  "room_code_of_token tok =
     replace_char (CHR ''-'') (CHR ''B'')
       (replace_char (CHR ''_'') (CHR ''A'') (upper (take ROOM_CODE_LENGTH tok)))"

text \<open>
  The \<^verbatim>\<open>while True\<close> loop of \<^verbatim>\<open>generate_room_code\<close> over the tokens drawn, in
  order. \<open>None\<close>: every token drawn gave a code already in use, and the loop has not
  returned.
\<close>

fun generate_room_code :: "rooms_db \<Rightarrow> string list \<Rightarrow> string option" where
  "generate_room_code db [] = None"
| "generate_room_code db (tok # toks) =
     (let code = room_code_of_token tok
      in if db code = None then Some code else generate_room_code db toks)"

definition get_player_name_by_id :: "Room \<Rightarrow> string \<Rightarrow> string option" where
  "get_player_name_by_id room player_id =
     map_option p_name (find (\<lambda>player. p_id player = player_id) (players room))"

subsection \<open>Creating, joining and leaving a room\<close>

definition new_room :: "string \<Rightarrow> string \<Rightarrow> Player \<Rightarrow> Room" where
  "new_room room_name room_code host_player =
     \<lparr> name = room_name, code = room_code, host_id = p_id host_player,
       players = [host_player], max_players = MAX_PLAYERS_PER_ROOM,
       game_phase = LOBBY, current_topic = None, round_start_time = None,
       round_duration_seconds = ROUND_DURATION_SECONDS,
       submitted_drawings = [], judgment_result = None \<rparr>"

text \<open>
  \<^verbatim>\<open>create_new_room\<close>; \<open>toks\<close> are the tokens drawn for the room code and \<open>new_id\<close>
  is the uuid of the host.
\<close>

definition create_new_room ::
  "rooms_db \<Rightarrow> string list \<Rightarrow> string \<Rightarrow> string \<Rightarrow> string option \<Rightarrow> (Room \<times> rooms_db) option" where
  "create_new_room db toks new_id host_name room_name =
     (case generate_room_code db toks of
        None \<Rightarrow> None
      | Some room_code \<Rightarrow>
          (let host_player = \<lparr> p_id = new_id, p_name = host_name \<rparr>;
               room = new_room (str_or room_name (''Room '' @ room_code)) room_code host_player
           in Some (room, db(room_code \<mapsto> room))))"

definition join_existing_room ::
  "rooms_db \<Rightarrow> string \<Rightarrow> string \<Rightarrow> string \<Rightarrow> response \<times> rooms_db" where
  "join_existing_room db room_code new_id player_name =
     (let room_code = upper room_code
      in case db room_code of
           None \<Rightarrow> (Inl NotFound, db)
         | Some room \<Rightarrow>
             if game_phase room \<noteq> LOBBY \<and> game_phase room \<noteq> GAME_OVER then (Inl Forbidden, db)
             else if int (length (players room)) \<ge> max_players room then (Inl Forbidden, db)
             else
               (let new_player = \<lparr> p_id = new_id, p_name = player_name \<rparr>;
                    room = room\<lparr>players := players room @ [new_player]\<rparr>
                in (Inr room, db(room_code \<mapsto> room))))"

text \<open>
  The values \<^verbatim>\<open>leave_room\<close> compares in \<^verbatim>\<open>player_id_to_leave in
  room.submitted_drawings\<close>: a string on the left, models in the list. Python's
  \<^verbatim>\<open>in\<close> on a list asks for an element that is the value or equals it, and a
  model equals only another model with the same fields.
\<close>

datatype pyval = PyStr string | PyDrawing SubmittedDrawing

fun py_eq :: "pyval \<Rightarrow> pyval \<Rightarrow> bool" where
  "py_eq (PyStr a) (PyStr b) = (a = b)"
| "py_eq (PyDrawing a) (PyDrawing b) = (a = b)"
| "py_eq _ _ = False"

definition py_in :: "pyval \<Rightarrow> pyval list \<Rightarrow> bool" where
  "py_in x xs = list_ex (\<lambda>e. py_eq e x) xs"

text \<open>
  \<^verbatim>\<open>next(i for i, d in enumerate(xs) if P d)\<close>: the first index, \<open>None\<close> where
  the generator is exhausted and \<^verbatim>\<open>next\<close> raises.
\<close>

fun first_index :: "('a \<Rightarrow> bool) \<Rightarrow> 'a list \<Rightarrow> nat option" where
  "first_index P [] = None"
| "first_index P (x # xs) = (if P x then Some 0 else map_option Suc (first_index P xs))"

definition pop :: "nat \<Rightarrow> 'a list \<Rightarrow> 'a list" where
  "pop i xs = take i xs @ drop (Suc i) xs"

text \<open>
  The block of \<^verbatim>\<open>leave_room\<close> under the comment "If player was in draw order, remove
  them". \<open>None\<close>: \<^verbatim>\<open>next\<close> raised \<^verbatim>\<open>StopIteration\<close>, which the
  \<^verbatim>\<open>except ValueError\<close> does not catch.
\<close>

definition remove_from_draw_order :: "string \<Rightarrow> Room \<Rightarrow> Room option" where
  "remove_from_draw_order player_id_to_leave room =
     (if py_in (PyStr player_id_to_leave) (map PyDrawing (submitted_drawings room)) then
        (case first_index (\<lambda>d. drawer_id d = player_id_to_leave) (submitted_drawings room) of
           None \<Rightarrow> None
         | Some leaving_player_draw_index \<Rightarrow>
             Some (room\<lparr>submitted_drawings :=
                          pop leaving_player_draw_index (submitted_drawings room)\<rparr>))
      else Some room)"

definition reassign_host :: "string \<Rightarrow> Room \<Rightarrow> Room" where
  "reassign_host player_id_to_leave room =
     (if host_id room = player_id_to_leave \<and> players room \<noteq> []
      then room\<lparr>host_id := p_id (hd (players room))\<rparr> else room)"

definition end_if_insufficient :: "Room \<Rightarrow> Room" where
  "end_if_insufficient room =
     (if game_phase room \<noteq> LOBBY \<and> game_phase room \<noteq> GAME_OVER
         \<and> int (length (players room)) < MIN_PLAYERS_TO_START
      then room\<lparr>game_phase := GAME_OVER, current_topic := None\<rparr> else room)"

definition leave_room :: "rooms_db \<Rightarrow> string \<Rightarrow> string \<Rightarrow> response \<times> rooms_db" where
  "leave_room db room_code player_id_to_leave =
     (let room_code_upper = upper room_code
      in case db room_code_upper of
           None \<Rightarrow> (Inl NotFound, db)
         | Some room \<Rightarrow>
             (case find (\<lambda>p. p_id p = player_id_to_leave) (players room) of
                None \<Rightarrow> (Inr room, db)
              | Some player_left_instance \<Rightarrow>
                  (let room = room\<lparr>players :=
                                filter (\<lambda>p. p_id p \<noteq> player_id_to_leave) (players room)\<rparr>
                   in if players room = [] then (Inl RoomClosed, db(room_code_upper := None))
                      else
                        (case remove_from_draw_order player_id_to_leave room of
                           None \<Rightarrow> (Inl StopIteration, db(room_code_upper \<mapsto> room))
                         | Some room \<Rightarrow>
                             (let room = reassign_host player_id_to_leave room;
                                  room = end_if_insufficient room
                              in (Inr room, db(room_code_upper \<mapsto> room)))))))"

subsection \<open>Game management helpers\<close>

text \<open>
  \<^verbatim>\<open>random.choice(PREDEFINED_TOPICS)\<close>; \<open>rnd\<close> is the random draw, reduced to an
  index of the list.
\<close>

definition select_new_topic :: "Room \<Rightarrow> nat \<Rightarrow> string" where
  "select_new_topic room rnd = PREDEFINED_TOPICS ! (rnd mod length PREDEFINED_TOPICS)"

definition reset_game_state_fields :: "Room \<Rightarrow> GamePhase \<Rightarrow> Room" where
  "reset_game_state_fields room new_phase =
     room\<lparr>game_phase := new_phase, current_topic := None, round_start_time := None,
          submitted_drawings := []\<rparr>"

subsection \<open>Game flow\<close>

definition start_game ::
  "rooms_db \<Rightarrow> string \<Rightarrow> string \<Rightarrow> nat \<Rightarrow> datetime \<Rightarrow> response \<times> rooms_db" where
  "start_game db room_code player_id rnd now =
     (let room_code_upper = upper room_code
      in case db room_code_upper of
           None \<Rightarrow> (Inl NotFound, db)
         | Some room \<Rightarrow>
             if host_id room \<noteq> player_id then (Inl Forbidden, db)
             else if game_phase room \<noteq> LOBBY then (Inl BadRequest, db)
             else if int (length (players room)) < MIN_PLAYERS_TO_START then (Inl BadRequest, db)
             else
               (let room = reset_game_state_fields room DRAWING;
                    room = room\<lparr>current_topic := Some (select_new_topic room rnd)\<rparr>;
                    room = room\<lparr>round_start_time := Some now\<rparr>
                in (Inr room, db(room_code_upper \<mapsto> room))))"

definition submit_drawing_and_advance_turn ::
  "rooms_db \<Rightarrow> string \<Rightarrow> string \<Rightarrow> string \<Rightarrow> response \<times> rooms_db" where
  "submit_drawing_and_advance_turn db room_code player_id img =
     (let room_code_upper = upper room_code
      in case db room_code_upper of
           None \<Rightarrow> (Inl NotFound, db)
         | Some room \<Rightarrow>
             if game_phase room \<noteq> DRAWING then (Inl BadRequest, db)
             else if list_ex (\<lambda>d. drawer_id d = player_id) (submitted_drawings room)
               then (Inl BadRequest, db)
             else
               (let drawer_name = str_or (get_player_name_by_id room player_id) ''Unknown Drawer'';
                    drawing = \<lparr> drawer_id = player_id, drawer_name = drawer_name,
                                topic = str_or (current_topic room) ''No Topic'',
                                image_b64 = img \<rparr>;
                    room = room\<lparr>submitted_drawings := submitted_drawings room @ [drawing]\<rparr>;
                    room = (if length (submitted_drawings room) \<ge> length (players room)
                            then room\<lparr>game_phase := GAME_OVER\<rparr> else room)
                in (Inr room, db(room_code_upper \<mapsto> room))))"

definition play_again ::
  "rooms_db \<Rightarrow> string \<Rightarrow> string \<Rightarrow> nat \<Rightarrow> datetime \<Rightarrow> response \<times> rooms_db" where
  "play_again db room_code player_id rnd now =
     (let room_code_upper = upper room_code
      in case db room_code_upper of
           None \<Rightarrow> (Inl NotFound, db)
         | Some room \<Rightarrow>
             if host_id room \<noteq> player_id then (Inl Forbidden, db)
             else if game_phase room \<noteq> GAME_OVER then (Inl BadRequest, db)
             else if int (length (players room)) < MIN_PLAYERS_TO_START
               then (Inl BadRequest, db(room_code_upper \<mapsto> reset_game_state_fields room LOBBY))
             else
               (let room = reset_game_state_fields room DRAWING;
                    room = room\<lparr>current_topic := Some (select_new_topic room rnd)\<rparr>;
                    room = room\<lparr>round_start_time := Some now\<rparr>
                in (Inr room, db(room_code_upper \<mapsto> room))))"

subsection \<open>Judgment\<close>

text \<open>
  The dictionary \<^verbatim>\<open>call_gemini_judge\<close> returns, with its keys \<^verbatim>\<open>summary\<close> and
  \<^verbatim>\<open>winner_name\<close>. The call goes to the external judge, so each call has its own
  reply; the fallbacks of the \<^verbatim>\<open>except\<close> branches are replies with an empty winner
  name.
\<close>

record GeminiReply =
  reply_summary :: string
  reply_winner_name :: string

definition run_gemini_judgment :: "Room \<Rightarrow> GeminiReply \<Rightarrow> Room" where
  "run_gemini_judgment room result =
     (if submitted_drawings room = [] then
        room\<lparr>judgment_result :=
               Some \<lparr> summary = ''No drawings to judge.'', winner_id = [], winner_name = [] \<rparr>\<rparr>
      else
        (let winner_id =
               (case find (\<lambda>d. drawer_name d = reply_winner_name result) (submitted_drawings room) of
                  None \<Rightarrow> []
                | Some d \<Rightarrow> drawer_id d)
         in room\<lparr>judgment_result :=
                   Some \<lparr> summary = reply_summary result, winner_id = winner_id,
                          winner_name = reply_winner_name result \<rparr>\<rparr>))"

text \<open>
  The request handler \<^verbatim>\<open>judge_room\<close>: it checks the room, queues
  \<^verbatim>\<open>run_gemini_judgment\<close> on it as a background task and returns the room as it is.
\<close>

definition judge_room :: "rooms_db \<Rightarrow> string \<Rightarrow> response" where
  "judge_room db room_code =
     (let room_code_upper = upper room_code
      in case db room_code_upper of
           None \<Rightarrow> Inl NotFound
         | Some room \<Rightarrow>
             if game_phase room \<noteq> GAME_OVER then Inl BadRequest else Inr room)"

text \<open>
  The queued task, run on the room object it was given. A room that has left the
  registry in the meantime is no longer seen through it.
\<close>

definition background_task :: "rooms_db \<Rightarrow> string \<Rightarrow> GeminiReply \<Rightarrow> rooms_db" where
  "background_task db room_code_upper result =
     (case db room_code_upper of
        None \<Rightarrow> db
      | Some room \<Rightarrow> db(room_code_upper \<mapsto> run_gemini_judgment room result))"

text \<open>The judge action: the request, then its background task.\<close>

definition judge_action :: "rooms_db \<Rightarrow> string \<Rightarrow> GeminiReply \<Rightarrow> response \<times> rooms_db" where
  "judge_action db room_code result =
     (case judge_room db room_code of
        Inl e \<Rightarrow> (Inl e, db)
      | Inr room \<Rightarrow> (Inr room, background_task db (upper room_code) result))"

text \<open>
  \<^verbatim>\<open>get_room_details\<close>. The code compares \<^verbatim>\<open>(now - round_start_time).total_seconds()\<close>
  with the integer \<^verbatim>\<open>round_duration_seconds\<close>; on microseconds that is the
  comparison below.
\<close>

definition get_room_details ::
  "rooms_db \<Rightarrow> string \<Rightarrow> datetime \<Rightarrow> GeminiReply \<Rightarrow> response \<times> rooms_db" where
  "get_room_details db room_code now result =
     (let room_code = upper room_code
      in case db room_code of
           None \<Rightarrow> (Inl NotFound, db)
         | Some room \<Rightarrow>
             (let room =
                    (case round_start_time room of
                       None \<Rightarrow> room
                     | Some start \<Rightarrow>
                         if game_phase room = DRAWING
                            \<and> now - start \<ge> round_duration_seconds room * 1000000
                         then room\<lparr>game_phase := GAME_OVER\<rparr> else room);
                  room = (if game_phase room = GAME_OVER \<and> judgment_result room = None
                          then run_gemini_judgment room result else room)
              in (Inr room, db(room_code \<mapsto> room))))"

subsection \<open>Actions and reachable registries\<close>

datatype action =
    Join string string string
  | Leave string string
  | Start string string nat datetime
  | Submit string string string
  | PlayAgain string string nat datetime
  | Judge string GeminiReply
  | Get string datetime GeminiReply

fun perform :: "action \<Rightarrow> rooms_db \<Rightarrow> response \<times> rooms_db" where
  "perform (Join room_code new_id player_name) db = join_existing_room db room_code new_id player_name"
| "perform (Leave room_code player_id) db = leave_room db room_code player_id"
| "perform (Start room_code player_id rnd now) db = start_game db room_code player_id rnd now"
| "perform (Submit room_code player_id img) db =
     submit_drawing_and_advance_turn db room_code player_id img"
| "perform (PlayAgain room_code player_id rnd now) db = play_again db room_code player_id rnd now"
| "perform (Judge room_code result) db = judge_action db room_code result"
| "perform (Get room_code now result) db = get_room_details db room_code now result"

text \<open>
  The registries the server can be in: empty at start, then changed by requests. A
  queued judgment may also finish later, between two other requests.
\<close>

inductive reachable :: "rooms_db \<Rightarrow> bool" where
  init: "reachable Map.empty"
| create: "reachable db \<Longrightarrow> create_new_room db toks new_id host_name room_name = Some (room, db')
             \<Longrightarrow> reachable db'"
| request: "reachable db \<Longrightarrow> perform a db = (res, db') \<Longrightarrow> reachable db'"
| deferred: "reachable db \<Longrightarrow> reachable (background_task db room_code result)"


subsection \<open>Runs of the server\<close>

text \<open>
  A run is a list of events, applied in order from some registry; a room creation whose
  code loop has not returned leaves the registry as it is.
\<close>

datatype event =
    Create "string list" string string "string option"
  | Request action
  | Deferred string GeminiReply

fun apply_event :: "event \<Rightarrow> rooms_db \<Rightarrow> rooms_db" where
  "apply_event (Create toks new_id host_name room_name) db =
     (case create_new_room db toks new_id host_name room_name of
        None \<Rightarrow> db
      | Some (room, db') \<Rightarrow> db')"
| "apply_event (Request a) db = snd (perform a db)"
| "apply_event (Deferred room_code result) db = background_task db room_code result"

fun run :: "event list \<Rightarrow> rooms_db \<Rightarrow> rooms_db" where
  "run [] db = db"
| "run (e # es) db = run es (apply_event e db)"

subsection \<open>Invariants of a room\<close>

definition room_inv :: "Room \<Rightarrow> bool" where
  "room_inv r \<longleftrightarrow>
     players r \<noteq> [] \<and> host_id r \<in> set (map p_id (players r))
     \<and> distinct (map drawer_id (submitted_drawings r))
     \<and> (current_topic r \<noteq> None \<longrightarrow> round_start_time r \<noteq> None)
     \<and> (game_phase r = LOBBY \<longrightarrow> current_topic r = None \<and> round_start_time r = None)
     \<and> (game_phase r = DRAWING \<longrightarrow> current_topic r \<noteq> None \<and> round_start_time r \<noteq> None)"

definition db_inv :: "rooms_db \<Rightarrow> bool" where
  "db_inv db \<longleftrightarrow> (\<forall>c r. db c = Some r \<longrightarrow> room_inv r)"

subsection \<open>Example runs\<close>

text \<open>
  Alice creates a room (the token \<open>abCd-_xx\<close> gives the code \<open>ABCDBA\<close>), Bob joins, and
  Alice starts a round at second 1; the draw 35 picks the topic \<open>Dog\<close>.
\<close>

definition alice :: Player where
  "alice = \<lparr> p_id = ''id-1'', p_name = ''Alice'' \<rparr>"

definition bob :: Player where
  "bob = \<lparr> p_id = ''id-2'', p_name = ''Bob'' \<rparr>"

definition carol :: Player where
  "carol = \<lparr> p_id = ''id-3'', p_name = ''Carol'' \<rparr>"

definition ev_lobby :: "event list" where
  "ev_lobby =
     [Create [''abCd-_xx''] ''id-1'' ''Alice'' None,
      Request (Join ''abcdba'' ''id-2'' ''Bob'')]"

definition ev_drawing :: "event list" where
  "ev_drawing = ev_lobby @ [Request (Start ''ABCDBA'' ''id-1'' 35 1000000)]"

definition ev_submitted :: "event list" where
  "ev_submitted = ev_drawing @ [Request (Submit ''ABCDBA'' ''id-1'' ''img-a'')]"

definition ev_over :: "event list" where
  "ev_over = ev_submitted @ [Request (Submit ''ABCDBA'' ''id-2'' ''img-b'')]"

definition no_connection :: GeminiReply where
  "no_connection = \<lparr> reply_summary = ''Could not connect to Gemini AI.'', reply_winner_name = [] \<rparr>"

definition bob_wins :: GeminiReply where
  "bob_wins = \<lparr> reply_summary = ''Reason: the dog smiles'', reply_winner_name = ''Bob'' \<rparr>"

definition ev_judged :: "event list" where
  "ev_judged = ev_over @ [Request (Get ''ABCDBA'' 50000000 no_connection)]"

definition ev_abort :: "event list" where
  "ev_abort = ev_drawing @ [Request (Leave ''ABCDBA'' ''id-2'')]"

definition ev_three :: "event list" where
  "ev_three =
     ev_lobby @ [Request (Join ''ABCDBA'' ''id-3'' ''Carol''),
                 Request (Start ''ABCDBA'' ''id-1'' 35 1000000),
                 Request (Submit ''ABCDBA'' ''id-2'' ''img-b'')]"

definition room_lobby :: Room where
  "room_lobby =
     \<lparr> name = ''Room ABCDBA'', code = ''ABCDBA'', host_id = ''id-1'', players = [alice, bob],
       max_players = 6, game_phase = LOBBY, current_topic = None, round_start_time = None,
       round_duration_seconds = 100, submitted_drawings = [], judgment_result = None \<rparr>"

definition room_drawing :: Room where
  "room_drawing =
     room_lobby\<lparr>game_phase := DRAWING, current_topic := Some ''Dog'',
                round_start_time := Some 1000000\<rparr>"

definition drawing_a :: SubmittedDrawing where
  "drawing_a = \<lparr> drawer_id = ''id-1'', drawer_name = ''Alice'', topic = ''Dog'',
                 image_b64 = ''img-a'' \<rparr>"

definition drawing_b :: SubmittedDrawing where
  "drawing_b = \<lparr> drawer_id = ''id-2'', drawer_name = ''Bob'', topic = ''Dog'',
                 image_b64 = ''img-b'' \<rparr>"

definition room_submitted :: Room where
  "room_submitted = room_drawing\<lparr>submitted_drawings := [drawing_a]\<rparr>"

definition room_over :: Room where
  "room_over = room_drawing\<lparr>submitted_drawings := [drawing_a, drawing_b], game_phase := GAME_OVER\<rparr>"

definition judgment_failed :: Judgment where
  "judgment_failed =
     \<lparr> summary = ''Could not connect to Gemini AI.'', winner_id = [], winner_name = [] \<rparr>"

definition room_judged :: Room where
  "room_judged = room_over\<lparr>judgment_result := Some judgment_failed\<rparr>"

definition room_abort :: Room where
  "room_abort = room_drawing\<lparr>players := [alice], game_phase := GAME_OVER, current_topic := None\<rparr>"

definition room_three :: Room where
  "room_three =
     room_drawing\<lparr>players := [alice, bob, carol], submitted_drawings := [drawing_b]\<rparr>"

definition judgment_bob :: Judgment where
  "judgment_bob =
     \<lparr> summary = ''Reason: the dog smiles'', winner_id = ''id-2'', winner_name = ''Bob'' \<rparr>"

definition room_rejudged :: Room where
  "room_rejudged = room_over\<lparr>judgment_result := Some judgment_bob\<rparr>"

definition room_again :: Room where
  "room_again =
     room_drawing\<lparr>current_topic := Some ''Elephant'', round_start_time := Some 200000000,
                  judgment_result := Some judgment_failed\<rparr>"

definition room_left :: Room where
  "room_left = room_three\<lparr>players := [alice, carol]\<rparr>"

definition drawing_x :: SubmittedDrawing where
  "drawing_x = \<lparr> drawer_id = ''id-9'', drawer_name = ''Unknown Drawer'', topic = ''Dog'',
                 image_b64 = ''img-x'' \<rparr>"

definition room_intruder :: Room where
  "room_intruder = room_drawing\<lparr>submitted_drawings := [drawing_x]\<rparr>"

definition room_relobby :: Room where
  "room_relobby = room_lobby\<lparr>players := [alice]\<rparr>"

definition room_bob :: Room where
  "room_bob = room_lobby\<lparr>players := [bob], host_id := ''id-2''\<rparr>"

definition room_timed_out :: Room where
  "room_timed_out =
     room_drawing\<lparr>game_phase := GAME_OVER,
                  judgment_result :=
                    Some \<lparr> summary = ''No drawings to judge.'', winner_id = [], winner_name = [] \<rparr>\<rparr>"

section \<open>Properties\<close>

subsection \<open>Evaluating the model\<close>

lemmas model_defs =
  MAX_PLAYERS_PER_ROOM_def MIN_PLAYERS_TO_START_def ROOM_CODE_LENGTH_def
  ROUND_DURATION_SECONDS_def PREDEFINED_TOPICS_def upper_def upper_char_def replace_char_def
  str_or_def room_code_of_token_def get_player_name_by_id_def new_room_def create_new_room_def
  join_existing_room_def py_in_def pop_def remove_from_draw_order_def reassign_host_def
  end_if_insufficient_def leave_room_def select_new_topic_def reset_game_state_fields_def
  start_game_def submit_drawing_and_advance_turn_def play_again_def run_gemini_judgment_def
  judge_room_def background_task_def judge_action_def get_room_details_def Let_def

lemmas example_defs =
  alice_def bob_def carol_def room_lobby_def room_drawing_def drawing_a_def drawing_b_def
  room_submitted_def room_over_def judgment_failed_def room_judged_def room_abort_def
  room_three_def no_connection_def bob_wins_def judgment_bob_def room_rejudged_def
  room_again_def room_left_def drawing_x_def room_intruder_def room_relobby_def room_bob_def
  room_timed_out_def

lemma run_snoc: "run (es @ [e]) db = apply_event e (run es db)"
  by (induction es arbitrary: db) simp_all

lemma run_append: "run (es @ es') db = run es' (run es db)"
  by (induction es arbitrary: db) simp_all

lemma run_ev_lobby: "run ev_lobby Map.empty = [''ABCDBA'' \<mapsto> room_lobby]"
  by (simp add: ev_lobby_def model_defs example_defs)

lemma run_ev_drawing: "run ev_drawing Map.empty = [''ABCDBA'' \<mapsto> room_drawing]"
  by (simp add: ev_drawing_def run_snoc run_ev_lobby model_defs example_defs)

lemma run_ev_submitted: "run ev_submitted Map.empty = [''ABCDBA'' \<mapsto> room_submitted]"
  by (simp add: ev_submitted_def run_snoc run_ev_drawing model_defs example_defs)

lemma run_ev_over: "run ev_over Map.empty = [''ABCDBA'' \<mapsto> room_over]"
  by (simp add: ev_over_def run_snoc run_ev_submitted model_defs example_defs)

lemma run_ev_judged: "run ev_judged Map.empty = [''ABCDBA'' \<mapsto> room_judged]"
  by (simp add: ev_judged_def run_snoc run_ev_over model_defs example_defs)

lemma run_ev_abort: "run ev_abort Map.empty = [''ABCDBA'' \<mapsto> room_abort]"
  by (simp add: ev_abort_def run_snoc run_ev_drawing model_defs example_defs)

lemma run_ev_three: "run ev_three Map.empty = [''ABCDBA'' \<mapsto> room_three]"
  by (simp add: ev_three_def run_append run_ev_lobby model_defs example_defs)

subsection \<open>Every run stays among the reachable registries\<close>

lemma apply_event_reachable: "reachable db \<Longrightarrow> reachable (apply_event e db)"
proof (cases e)
  case (Create toks new_id host_name room_name)
  assume r: "reachable db"
  show ?thesis
  proof (cases "create_new_room db toks new_id host_name room_name")
    case None
    with Create r show ?thesis by simp
  next
    case (Some p)
    obtain room db' where p: "p = (room, db')" by (cases p)
    from reachable.create[OF r] Some p have "reachable db'" by simp
    with Create Some p show ?thesis by simp
  qed
next
  case (Request a)
  assume r: "reachable db"
  have "perform a db = (fst (perform a db), snd (perform a db))" by simp
  from reachable.request[OF r this] Request show ?thesis by simp
next
  case (Deferred c res)
  assume r: "reachable db"
  from reachable.deferred[OF r] Deferred show ?thesis by simp
qed

lemma run_reachable: "reachable db \<Longrightarrow> reachable (run es db)"
  by (induction es arbitrary: db) (auto intro: apply_event_reachable)

lemma reachable_run_empty: "reachable (run es Map.empty)"
  by (rule run_reachable) (rule reachable.init)

subsection \<open>The membership test of \<^verbatim>\<open>leave_room\<close>\<close>

text \<open>
  A player id is a string and \<^verbatim>\<open>submitted_drawings\<close> holds models, so the test
  \<^verbatim>\<open>player_id_to_leave in room.submitted_drawings\<close> is false on every input and the
  block below it never runs.
\<close>

lemma py_in_str_drawings: "\<not> py_in (PyStr s) (map PyDrawing ds)"
  by (induction ds) (simp_all add: py_in_def)

lemma remove_from_draw_order_same: "remove_from_draw_order pid room = Some room"
  by (simp add: remove_from_draw_order_def py_in_str_drawings)

subsection \<open>Every request keeps the room invariants\<close>

lemma room_inv_new_room: "room_inv (new_room n c p)"
  by (simp add: room_inv_def new_room_def)

lemma room_inv_join: "room_inv r \<Longrightarrow> room_inv (r\<lparr>players := players r @ [p]\<rparr>)"
  by (simp add: room_inv_def)

lemma hd_filter_in: "ps \<noteq> [] \<Longrightarrow> p_id (hd ps) \<in> p_id ` set ps"
  by (cases ps) simp_all

lemma room_inv_leave:
  assumes "room_inv r" and "filter (\<lambda>p. p_id p \<noteq> pid) (players r) \<noteq> []"
  shows "room_inv (end_if_insufficient (reassign_host pid
           (r\<lparr>players := filter (\<lambda>p. p_id p \<noteq> pid) (players r)\<rparr>)))"
proof -
  let ?ps = "filter (\<lambda>p. p_id p \<noteq> pid) (players r)"
  have hd: "p_id (hd ?ps) \<in> p_id ` set ?ps"
    using assms(2) by (rule hd_filter_in)
  have keep: "host_id r \<noteq> pid \<Longrightarrow> host_id r \<in> p_id ` set ?ps"
    using assms(1) by (auto simp: room_inv_def)
  show ?thesis
    using assms hd keep
    by (auto simp: room_inv_def end_if_insufficient_def reassign_host_def)
qed

lemma room_inv_restart:
  "room_inv r \<Longrightarrow>
   room_inv (reset_game_state_fields r DRAWING\<lparr>current_topic := Some t, round_start_time := Some n\<rparr>)"
  by (simp add: room_inv_def reset_game_state_fields_def)

lemma room_inv_reset_lobby: "room_inv r \<Longrightarrow> room_inv (reset_game_state_fields r LOBBY)"
  by (simp add: room_inv_def reset_game_state_fields_def)

lemma room_inv_submit:
  assumes "room_inv r" and "\<not> list_ex (\<lambda>d. drawer_id d = pid) (submitted_drawings r)"
    and "drawer_id d = pid"
  shows "room_inv (r\<lparr>submitted_drawings := submitted_drawings r @ [d]\<rparr>)"
    and "room_inv (r\<lparr>submitted_drawings := submitted_drawings r @ [d], game_phase := GAME_OVER\<rparr>)"
  using assms by (auto simp: room_inv_def list_ex_iff)

lemma room_inv_game_over: "room_inv r \<Longrightarrow> room_inv (r\<lparr>game_phase := GAME_OVER\<rparr>)"
  by (simp add: room_inv_def)

lemma room_inv_judgment: "room_inv r \<Longrightarrow> room_inv (run_gemini_judgment r res)"
  by (simp add: room_inv_def run_gemini_judgment_def Let_def)

lemma db_inv_upd: "db_inv db \<Longrightarrow> room_inv r \<Longrightarrow> db_inv (db(c \<mapsto> r))"
  by (simp add: db_inv_def)

lemma db_inv_del: "db_inv db \<Longrightarrow> db_inv (db(c := None))"
  by (simp add: db_inv_def)

lemma db_invD: "db_inv db \<Longrightarrow> db c = Some r \<Longrightarrow> room_inv r"
  by (simp add: db_inv_def)

lemma join_inv: "db_inv db \<Longrightarrow> join_existing_room db rc nid pn = (res, db') \<Longrightarrow> db_inv db'"
  by (auto simp: join_existing_room_def Let_def split: option.splits if_splits
           intro!: db_inv_upd room_inv_join dest: db_invD)

lemma leave_inv: "db_inv db \<Longrightarrow> leave_room db rc pid = (res, db') \<Longrightarrow> db_inv db'"
  by (auto simp: leave_room_def Let_def remove_from_draw_order_same split: option.splits if_splits
           intro!: db_inv_upd db_inv_del room_inv_leave dest: db_invD)

lemma start_inv: "db_inv db \<Longrightarrow> start_game db rc pid rnd now = (res, db') \<Longrightarrow> db_inv db'"
  by (auto simp: start_game_def Let_def split: option.splits if_splits
           intro!: db_inv_upd room_inv_restart dest: db_invD)

lemma play_again_inv: "db_inv db \<Longrightarrow> play_again db rc pid rnd now = (res, db') \<Longrightarrow> db_inv db'"
  by (auto simp: play_again_def Let_def split: option.splits if_splits
           intro!: db_inv_upd room_inv_restart room_inv_reset_lobby dest: db_invD)

lemma background_task_inv: "db_inv db \<Longrightarrow> db_inv (background_task db c res)"
  by (auto simp: background_task_def split: option.splits
           intro!: db_inv_upd room_inv_judgment dest: db_invD)

lemma judge_inv: "db_inv db \<Longrightarrow> judge_action db rc result = (res, db') \<Longrightarrow> db_inv db'"
  by (auto simp: judge_action_def split: sum.splits intro: background_task_inv)

lemma get_inv: "db_inv db \<Longrightarrow> get_room_details db rc now result = (res, db') \<Longrightarrow> db_inv db'"
  by (auto simp: get_room_details_def Let_def split: option.splits if_splits
           intro!: db_inv_upd room_inv_judgment room_inv_game_over dest: db_invD)


lemma submit_inv:
  "db_inv db \<Longrightarrow> submit_drawing_and_advance_turn db rc pid img = (res, db') \<Longrightarrow> db_inv db'"
  by (auto simp: submit_drawing_and_advance_turn_def Let_def
           split: option.splits if_splits intro!: db_inv_upd room_inv_submit dest: db_invD)

lemma perform_inv: "db_inv db \<Longrightarrow> perform a db = (res, db') \<Longrightarrow> db_inv db'"
  by (cases a) (auto intro: join_inv leave_inv start_inv submit_inv play_again_inv judge_inv get_inv)

lemma create_inv:
  "db_inv db \<Longrightarrow> create_new_room db toks nid hn rn = Some (room, db') \<Longrightarrow> db_inv db'"
  by (auto simp: create_new_room_def Let_def split: option.splits
           intro!: db_inv_upd room_inv_new_room)

lemma reachable_inv: "reachable db \<Longrightarrow> db_inv db"
proof (induction rule: reachable.induct)
  case init
  show ?case by (simp add: db_inv_def)
next
  case (create db toks new_id host_name room_name room db')
  then show ?case by (blast intro: create_inv)
next
  case (request db a res db')
  then show ?case by (blast intro: perform_inv)
next
  case (deferred db room_code result)
  from deferred.IH show ?case by (rule background_task_inv)
qed

section \<open>The claims\<close>

lemma upper_abcdba: "upper ''abcdba'' = ''ABCDBA''"
  by (simp add: upper_def upper_char_def)

lemma upper_ABCDBA: "upper ''ABCDBA'' = ''ABCDBA''"
  by (simp add: upper_def upper_char_def)

subsection \<open>Round end: timeout and full submission\<close>

text \<open>
  Claim C7 (lazy timeout). When \<^verbatim>\<open>get_room_details\<close> reads a room whose phase is
  drawing and for which \<open>now - round_start_time\<close> is at least
  \<open>round_duration_seconds\<close> (here in microseconds), the phase is set to game over: both
  the room in the response and the room stored in the registry are in phase
  \<open>GAME_OVER\<close>. No other request is needed.
\<close>

theorem lazy_timeout_on_read:
  assumes "db (upper room_code) = Some room"
    and "game_phase room = DRAWING"
    and "round_start_time room = Some start"
    and "now - start \<ge> round_duration_seconds room * 1000000"
  shows "\<exists>room'. get_room_details db room_code now result
                    = (Inr room', db(upper room_code \<mapsto> room'))
                 \<and> game_phase room' = GAME_OVER"
  using assms
  by (simp add: get_room_details_def Let_def run_gemini_judgment_def)

theorem lazy_timeout_on_read_witness:
  "run ev_drawing Map.empty (upper ''ABCDBA'') = Some room_drawing
   \<and> game_phase room_drawing = DRAWING
   \<and> round_start_time room_drawing = Some 1000000
   \<and> 101000000 - 1000000 \<ge> round_duration_seconds room_drawing * 1000000
   \<and> get_room_details (run ev_drawing Map.empty) ''ABCDBA'' 101000000 bob_wins
       = (Inr room_timed_out, [''ABCDBA'' \<mapsto> room_timed_out])
   \<and> game_phase room_timed_out = GAME_OVER"
proof -
  have h1: "run ev_drawing Map.empty (upper ''ABCDBA'') = Some room_drawing"
    by (simp add: run_ev_drawing upper_ABCDBA)
  have h2: "game_phase room_drawing = DRAWING"
    by (simp add: example_defs)
  have h3: "round_start_time room_drawing = Some 1000000"
    by (simp add: example_defs)
  have h4: "101000000 - 1000000 \<ge> round_duration_seconds room_drawing * 1000000"
    by (simp add: example_defs)
  have e: "get_room_details (run ev_drawing Map.empty) ''ABCDBA'' 101000000 bob_wins
       = (Inr room_timed_out, [''ABCDBA'' \<mapsto> room_timed_out])"
    by (simp add: run_ev_drawing model_defs example_defs)
  from lazy_timeout_on_read
         [where db = "run ev_drawing Map.empty" and room_code = "''ABCDBA''" and result = bob_wins,
          OF h1 h2 h3 h4]
       h1 h2 h3 h4 e
  show ?thesis
    by auto
qed


text \<open>
  Claim C8 (early end). When a submission is accepted and the room then holds at least as
  many drawings as players, the room was in the drawing phase and the same request puts
  it in phase \<open>GAME_OVER\<close>, in the response and in the registry.
\<close>

theorem early_end_on_full_submission:
  assumes "db (upper room_code) = Some room"
    and "submit_drawing_and_advance_turn db room_code player_id img = (Inr room', db')"
    and "length (submitted_drawings room') \<ge> length (players room')"
  shows "game_phase room = DRAWING \<and> game_phase room' = GAME_OVER
         \<and> db' (upper room_code) = Some room'
         \<and> length (submitted_drawings room') = length (submitted_drawings room) + 1
         \<and> players room' = players room"
  using assms
  by (auto simp: submit_drawing_and_advance_turn_def Let_def split: if_splits)

theorem early_end_on_full_submission_witness:
  "run ev_submitted Map.empty (upper ''ABCDBA'') = Some room_submitted
   \<and> submit_drawing_and_advance_turn (run ev_submitted Map.empty) ''ABCDBA'' ''id-2'' ''img-b''
       = (Inr room_over, [''ABCDBA'' \<mapsto> room_over])
   \<and> length (submitted_drawings room_over) \<ge> length (players room_over)
   \<and> game_phase room_submitted = DRAWING \<and> game_phase room_over = GAME_OVER"
proof -
  have h1: "run ev_submitted Map.empty (upper ''ABCDBA'') = Some room_submitted"
    by (simp add: run_ev_submitted upper_ABCDBA)
  have h2: "submit_drawing_and_advance_turn (run ev_submitted Map.empty) ''ABCDBA'' ''id-2'' ''img-b''
       = (Inr room_over, [''ABCDBA'' \<mapsto> room_over])"
    by (simp add: run_ev_submitted model_defs example_defs)
  have h3: "length (submitted_drawings room_over) \<ge> length (players room_over)"
    by (simp add: example_defs)
  from early_end_on_full_submission
         [where db = "run ev_submitted Map.empty" and room_code = "''ABCDBA''", OF h1 h2 h3]
       h1 h2 h3
  show ?thesis
    by simp
qed

text \<open>
  Claim C9 (duplicate submission). In the drawing phase, a submission under a player id
  that already has a drawing in \<open>submitted_drawings\<close> is answered with
  \<open>BadRequest\<close> and the registry, so also the list of drawings and its length, stays as
  it was.
\<close>

theorem duplicate_submission_rejected:
  assumes "db (upper room_code) = Some room"
    and "game_phase room = DRAWING"
    and "player_id \<in> set (map drawer_id (submitted_drawings room))"
  shows "submit_drawing_and_advance_turn db room_code player_id img = (Inl BadRequest, db)"
  using assms by (auto simp: submit_drawing_and_advance_turn_def list_ex_iff)

theorem duplicate_submission_rejected_witness:
  "run ev_submitted Map.empty (upper ''abcdba'') = Some room_submitted
   \<and> game_phase room_submitted = DRAWING
   \<and> ''id-1'' \<in> set (map drawer_id (submitted_drawings room_submitted))
   \<and> submit_drawing_and_advance_turn (run ev_submitted Map.empty) ''abcdba'' ''id-1'' ''img-2''
       = (Inl BadRequest, run ev_submitted Map.empty)"
proof -
  have h1: "run ev_submitted Map.empty (upper ''abcdba'') = Some room_submitted"
    by (simp add: run_ev_submitted upper_abcdba)
  have h2: "game_phase room_submitted = DRAWING"
    by (simp add: example_defs)
  have h3: "''id-1'' \<in> set (map drawer_id (submitted_drawings room_submitted))"
    by (simp add: example_defs)
  from duplicate_submission_rejected
         [where db = "run ev_submitted Map.empty" and room_code = "''abcdba''", OF h1 h2 h3]
       h1 h2 h3
  show ?thesis
    by simp
qed

subsection \<open>Membership and the host\<close>

lemma leave_room_by_member:
  assumes "db (upper room_code) = Some room"
    and "player_id \<in> set (map p_id (players room))"
    and "leave_room db room_code player_id = (Inr room', db')"
  shows "players room' = filter (\<lambda>p. p_id p \<noteq> player_id) (players room)"
    and "players room' \<noteq> []"
    and "host_id room' = (if host_id room = player_id then p_id (hd (players room')) else host_id room)"
    and "db' (upper room_code) = Some room'"
    and "submitted_drawings room' = submitted_drawings room"
proof -
  from assms(2) have f: "find (\<lambda>p. p_id p = player_id) (players room) \<noteq> None"
    by (auto simp: find_None_iff)
  from assms(1,3) f
  have r: "filter (\<lambda>p. p_id p \<noteq> player_id) (players room) \<noteq> []
           \<and> room' = end_if_insufficient (reassign_host player_id
                (room\<lparr>players := filter (\<lambda>p. p_id p \<noteq> player_id) (players room)\<rparr>))
           \<and> db' = db(upper room_code \<mapsto> room')"
    by (auto simp: leave_room_def Let_def remove_from_draw_order_same
             split: option.splits if_splits)
  from r show "players room' = filter (\<lambda>p. p_id p \<noteq> player_id) (players room)"
    by (simp add: end_if_insufficient_def reassign_host_def)
  from r show "players room' \<noteq> []"
    by (simp add: end_if_insufficient_def reassign_host_def)
  from r show "host_id room' = (if host_id room = player_id then p_id (hd (players room')) else host_id room)"
    by (simp add: end_if_insufficient_def reassign_host_def)
  from r show "db' (upper room_code) = Some room'"
    by simp
  from r show "submitted_drawings room' = submitted_drawings room"
    by (simp add: end_if_insufficient_def reassign_host_def)
qed

text \<open>
  Claim C10 (host membership). In every reachable registry, every room has a non-empty
  player list and its \<open>host_id\<close> is the id of one of its players. In particular, when
  the host leaves and the room stays open, the players are the remaining ones and
  \<open>host_id\<close> is the id of the first of them.
\<close>

theorem host_is_a_player:
  assumes "reachable db"
  shows "(db c = Some r \<longrightarrow> players r \<noteq> [] \<and> host_id r \<in> set (map p_id (players r)))
       \<and> (db (upper room_code) = Some room
            \<longrightarrow> leave_room db room_code (host_id room) = (Inr room', db')
            \<longrightarrow> players room' = filter (\<lambda>p. p_id p \<noteq> host_id room) (players room)
                \<and> players room' \<noteq> []
                \<and> host_id room' = p_id (hd (players room'))
                \<and> db' (upper room_code) = Some room')"
proof -
  from assms have inv: "db_inv db" by (rule reachable_inv)
  have first: "db c = Some r \<longrightarrow> players r \<noteq> [] \<and> host_id r \<in> set (map p_id (players r))"
    using inv by (auto simp: db_inv_def room_inv_def)
  have second: "players room' = filter (\<lambda>p. p_id p \<noteq> host_id room) (players room)
                \<and> players room' \<noteq> []
                \<and> host_id room' = p_id (hd (players room'))
                \<and> db' (upper room_code) = Some room'"
    if a: "db (upper room_code) = Some room"
      and b: "leave_room db room_code (host_id room) = (Inr room', db')"
  proof -
    from inv a have "host_id room \<in> set (map p_id (players room))"
      by (auto simp: db_inv_def room_inv_def)
    from leave_room_by_member(1-4) [OF a this b] show ?thesis by simp
  qed
  from first second show ?thesis by blast
qed

theorem host_is_a_player_witness:
  "reachable (run ev_lobby Map.empty)
   \<and> run ev_lobby Map.empty ''ABCDBA'' = Some room_lobby
   \<and> players room_lobby \<noteq> [] \<and> host_id room_lobby \<in> set (map p_id (players room_lobby))
   \<and> run ev_lobby Map.empty (upper ''abcdba'') = Some room_lobby
   \<and> leave_room (run ev_lobby Map.empty) ''abcdba'' (host_id room_lobby)
        = (Inr room_bob, [''ABCDBA'' \<mapsto> room_bob])
   \<and> players room_bob = [bob] \<and> host_id room_bob = p_id bob"
proof -
  have h0: "reachable (run ev_lobby Map.empty)"
    by (rule reachable_run_empty)
  have h1: "run ev_lobby Map.empty ''ABCDBA'' = Some room_lobby"
    by (simp add: run_ev_lobby)
  have h2: "run ev_lobby Map.empty (upper ''abcdba'') = Some room_lobby"
    by (simp add: run_ev_lobby upper_abcdba)
  have h3: "leave_room (run ev_lobby Map.empty) ''abcdba'' (host_id room_lobby)
        = (Inr room_bob, [''ABCDBA'' \<mapsto> room_bob])"
    by (simp add: run_ev_lobby model_defs example_defs)
  have e: "players room_bob = [bob] \<and> host_id room_bob = p_id bob"
    by (simp add: example_defs)
  from host_is_a_player
         [where db = "run ev_lobby Map.empty" and c = "''ABCDBA''" and r = room_lobby
            and room_code = "''abcdba''" and room = room_lobby and room' = room_bob
            and db' = "[''ABCDBA'' \<mapsto> room_bob]", OF h0]
       h0 h1 h2 h3 e
  show ?thesis by simp
qed

text \<open>
  Claim C3 (a leaving player's drawing). The claim: when a player who has submitted a
  drawing leaves, the drawing is removed from \<open>submitted_drawings\<close>. The code does not
  do that. In a room of three in the drawing phase Bob submits and then leaves; the
  request succeeds, Bob is no longer a player, and his drawing is still in the list.
\<close>

theorem leave_keeps_submission:
  "reachable (run ev_three Map.empty)
   \<and> run ev_three Map.empty ''ABCDBA'' = Some room_three
   \<and> ''id-2'' \<in> set (map p_id (players room_three))
   \<and> ''id-2'' \<in> set (map drawer_id (submitted_drawings room_three))
   \<and> leave_room (run ev_three Map.empty) ''ABCDBA'' ''id-2''
       = (Inr room_left, [''ABCDBA'' \<mapsto> room_left])
   \<and> ''id-2'' \<notin> set (map p_id (players room_left))
   \<and> ''id-2'' \<in> set (map drawer_id (submitted_drawings room_left))"
proof -
  have "reachable (run ev_three Map.empty)"
    by (rule reachable_run_empty)
  moreover have "run ev_three Map.empty ''ABCDBA'' = Some room_three"
    by (simp add: run_ev_three)
  moreover have "leave_room (run ev_three Map.empty) ''ABCDBA'' ''id-2''
       = (Inr room_left, [''ABCDBA'' \<mapsto> room_left])"
    by (simp add: run_ev_three model_defs example_defs)
  moreover have "''id-2'' \<in> set (map p_id (players room_three))
   \<and> ''id-2'' \<in> set (map drawer_id (submitted_drawings room_three))
   \<and> ''id-2'' \<notin> set (map p_id (players room_left))
   \<and> ''id-2'' \<in> set (map drawer_id (submitted_drawings room_left))"
    by (simp add: example_defs)
  ultimately show ?thesis by simp
qed

subsection \<open>Round state\<close>

text \<open>
  Claim C5 (topic and start time), as the code has it. In every reachable room,
  \<open>round_start_time\<close> is set whenever \<open>current_topic\<close> is set; in the lobby both are
  unset, and in the drawing phase both are set.
\<close>

theorem topic_set_implies_start_time_set:
  assumes "reachable db" and "db c = Some r"
  shows "(current_topic r \<noteq> None \<longrightarrow> round_start_time r \<noteq> None)
       \<and> (game_phase r = LOBBY \<longrightarrow> current_topic r = None \<and> round_start_time r = None)
       \<and> (game_phase r = DRAWING \<longrightarrow> current_topic r \<noteq> None \<and> round_start_time r \<noteq> None)"
proof -
  from assms(1) have "db_inv db" by (rule reachable_inv)
  from this assms(2) have "room_inv r" by (rule db_invD)
  then show ?thesis by (simp add: room_inv_def)
qed

theorem topic_set_implies_start_time_set_witness:
  "reachable (run ev_drawing Map.empty)
   \<and> run ev_drawing Map.empty ''ABCDBA'' = Some room_drawing
   \<and> game_phase room_drawing = DRAWING
   \<and> current_topic room_drawing \<noteq> None \<and> round_start_time room_drawing \<noteq> None
   \<and> reachable (run ev_lobby Map.empty)
   \<and> run ev_lobby Map.empty ''ABCDBA'' = Some room_lobby
   \<and> game_phase room_lobby = LOBBY
   \<and> current_topic room_lobby = None \<and> round_start_time room_lobby = None"
proof -
  have h0: "reachable (run ev_drawing Map.empty)" "reachable (run ev_lobby Map.empty)"
    by (rule reachable_run_empty)+
  have h1: "run ev_drawing Map.empty ''ABCDBA'' = Some room_drawing"
    by (simp add: run_ev_drawing)
  have h2: "run ev_lobby Map.empty ''ABCDBA'' = Some room_lobby"
    by (simp add: run_ev_lobby)
  have p: "game_phase room_drawing = DRAWING" "game_phase room_lobby = LOBBY"
    by (simp_all add: example_defs)
  from topic_set_implies_start_time_set [OF h0(1) h1]
       topic_set_implies_start_time_set [OF h0(2) h2] h0 h1 h2 p
  show ?thesis by simp
qed

text \<open>
  Claim C5 as stated (both set or both unset in every reachable room) fails: Alice and
  Bob start a round and Bob leaves. The round ends for lack of players, the topic is
  cleared and the start time stays.
\<close>

theorem topic_cleared_start_time_kept:
  "reachable (run ev_abort Map.empty)
   \<and> run ev_abort Map.empty ''ABCDBA'' = Some room_abort
   \<and> game_phase room_abort = GAME_OVER
   \<and> current_topic room_abort = None
   \<and> round_start_time room_abort = Some 1000000"
proof -
  have "reachable (run ev_abort Map.empty)"
    by (rule reachable_run_empty)
  moreover have "run ev_abort Map.empty ''ABCDBA'' = Some room_abort"
    by (simp add: run_ev_abort)
  moreover have "game_phase room_abort = GAME_OVER \<and> current_topic room_abort = None
                 \<and> round_start_time room_abort = Some 1000000"
    by (simp add: example_defs)
  ultimately show ?thesis by simp
qed

lemma non_member_name:
  "player_id \<notin> set (map p_id (players room)) \<Longrightarrow> get_player_name_by_id room player_id = None"
  by (auto simp: get_player_name_by_id_def find_None_iff)

text \<open>
  Claim C6 (submissions), as the code has it. In every reachable room the drawer ids of
  \<open>submitted_drawings\<close> are pairwise distinct. An accepted submission appends exactly
  one drawing; its \<open>drawer_id\<close> is the player id of the request, which had no drawing
  before. The player id is not checked against the players of the room: in the drawing
  phase every submission under an id without a drawing is accepted, and where no
  player of the room has the id the drawing is stored under the name
  \<open>Unknown Drawer\<close>.
\<close>

theorem one_submission_per_drawer:
  "(reachable db \<longrightarrow> db c = Some r \<longrightarrow> distinct (map drawer_id (submitted_drawings r)))
   \<and> (db (upper room_code) = Some room
        \<longrightarrow> submit_drawing_and_advance_turn db room_code player_id img = (Inr room', db')
        \<longrightarrow> submitted_drawings room' = submitted_drawings room @
               [\<lparr> drawer_id = player_id,
                  drawer_name = str_or (get_player_name_by_id room player_id) ''Unknown Drawer'',
                  topic = str_or (current_topic room) ''No Topic'',
                  image_b64 = img \<rparr>]
            \<and> player_id \<notin> set (map drawer_id (submitted_drawings room)))
   \<and> (db (upper room_code) = Some room \<longrightarrow> game_phase room = DRAWING
        \<longrightarrow> player_id \<notin> set (map drawer_id (submitted_drawings room))
        \<longrightarrow> (\<exists>accepted.
               submit_drawing_and_advance_turn db room_code player_id img
                 = (Inr accepted, db(upper room_code \<mapsto> accepted))
               \<and> players accepted = players room
               \<and> submitted_drawings accepted = submitted_drawings room @
                    [\<lparr> drawer_id = player_id,
                       drawer_name =
                         (if player_id \<in> set (map p_id (players room))
                          then str_or (get_player_name_by_id room player_id) ''Unknown Drawer''
                          else ''Unknown Drawer''),
                       topic = str_or (current_topic room) ''No Topic'',
                       image_b64 = img \<rparr>]))"
proof (intro conjI impI)
  assume "reachable db" and c: "db c = Some r"
  then have "db_inv db" by (simp add: reachable_inv)
  from this c have "room_inv r" by (rule db_invD)
  then show "distinct (map drawer_id (submitted_drawings r))"
    by (simp add: room_inv_def)
next
  assume "db (upper room_code) = Some room"
    and "submit_drawing_and_advance_turn db room_code player_id img = (Inr room', db')"
  then show "submitted_drawings room' = submitted_drawings room @
               [\<lparr> drawer_id = player_id,
                  drawer_name = str_or (get_player_name_by_id room player_id) ''Unknown Drawer'',
                  topic = str_or (current_topic room) ''No Topic'',
                  image_b64 = img \<rparr>]"
    by (auto simp: submit_drawing_and_advance_turn_def Let_def split: if_splits)
next
  assume "db (upper room_code) = Some room"
    and "submit_drawing_and_advance_turn db room_code player_id img = (Inr room', db')"
  then show "player_id \<notin> set (map drawer_id (submitted_drawings room))"
    by (auto simp: submit_drawing_and_advance_turn_def Let_def list_ex_iff split: if_splits)
next
  assume a: "db (upper room_code) = Some room" "game_phase room = DRAWING"
    "player_id \<notin> set (map drawer_id (submitted_drawings room))"
  have n: "player_id \<notin> set (map p_id (players room))
           \<Longrightarrow> str_or (get_player_name_by_id room player_id) ''Unknown Drawer'' = ''Unknown Drawer''"
    by (simp add: non_member_name str_or_def)
  from a have l: "\<not> list_ex (\<lambda>d. drawer_id d = player_id) (submitted_drawings room)"
    by (auto simp: list_ex_iff)
  from a(1,2) l n
  show "\<exists>accepted.
               submit_drawing_and_advance_turn db room_code player_id img
                 = (Inr accepted, db(upper room_code \<mapsto> accepted))
               \<and> players accepted = players room
               \<and> submitted_drawings accepted = submitted_drawings room @
                    [\<lparr> drawer_id = player_id,
                       drawer_name =
                         (if player_id \<in> set (map p_id (players room))
                          then str_or (get_player_name_by_id room player_id) ''Unknown Drawer''
                          else ''Unknown Drawer''),
                       topic = str_or (current_topic room) ''No Topic'',
                       image_b64 = img \<rparr>]"
    by (simp add: submit_drawing_and_advance_turn_def Let_def)
qed


theorem one_submission_per_drawer_witness:
  "reachable (run ev_over Map.empty)
   \<and> run ev_over Map.empty ''ABCDBA'' = Some room_over
   \<and> distinct (map drawer_id (submitted_drawings room_over))
   \<and> run ev_submitted Map.empty (upper ''ABCDBA'') = Some room_submitted
   \<and> submit_drawing_and_advance_turn (run ev_submitted Map.empty) ''ABCDBA'' ''id-2'' ''img-b''
       = (Inr room_over, [''ABCDBA'' \<mapsto> room_over])
   \<and> submitted_drawings room_over = submitted_drawings room_submitted @ [drawing_b]
   \<and> run ev_drawing Map.empty (upper ''ABCDBA'') = Some room_drawing
   \<and> game_phase room_drawing = DRAWING
   \<and> ''id-9'' \<notin> set (map drawer_id (submitted_drawings room_drawing))
   \<and> ''id-9'' \<notin> set (map p_id (players room_drawing))
   \<and> (\<exists>accepted.
         submit_drawing_and_advance_turn (run ev_drawing Map.empty) ''ABCDBA'' ''id-9'' ''img-x''
           = (Inr accepted, (run ev_drawing Map.empty)(upper ''ABCDBA'' \<mapsto> accepted))
         \<and> players accepted = [alice, bob]
         \<and> submitted_drawings accepted = [drawing_x])"
proof -
  have h0: "reachable (run ev_over Map.empty)"
    by (rule reachable_run_empty)
  have h1: "run ev_over Map.empty ''ABCDBA'' = Some room_over"
    by (simp add: run_ev_over)
  have h2: "run ev_submitted Map.empty (upper ''ABCDBA'') = Some room_submitted"
    by (simp add: run_ev_submitted upper_ABCDBA)
  have h3: "submit_drawing_and_advance_turn (run ev_submitted Map.empty) ''ABCDBA'' ''id-2'' ''img-b''
       = (Inr room_over, [''ABCDBA'' \<mapsto> room_over])"
    by (simp add: run_ev_submitted model_defs example_defs)
  have g1: "run ev_drawing Map.empty (upper ''ABCDBA'') = Some room_drawing"
    by (simp add: run_ev_drawing upper_ABCDBA)
  have g2: "game_phase room_drawing = DRAWING"
    by (simp add: example_defs)
  have g3: "''id-9'' \<notin> set (map drawer_id (submitted_drawings room_drawing))"
    by (simp add: example_defs)
  have g4: "''id-9'' \<notin> set (map p_id (players room_drawing))"
    by (simp add: example_defs)
  have v: "players room_drawing = [alice, bob]" "submitted_drawings room_drawing = []"
    "str_or (current_topic room_drawing) ''No Topic'' = ''Dog''"
    by (simp_all add: example_defs str_or_def)
  from one_submission_per_drawer
         [where db = "run ev_over Map.empty" and c = "''ABCDBA''" and r = room_over] h0 h1
  have d: "distinct (map drawer_id (submitted_drawings room_over))"
    by blast
  from one_submission_per_drawer
         [where db = "run ev_submitted Map.empty" and room_code = "''ABCDBA''"
            and room = room_submitted and room' = room_over and player_id = "''id-2''"
            and img = "''img-b''" and db' = "[''ABCDBA'' \<mapsto> room_over]"] h2 h3
  have a: "submitted_drawings room_over = submitted_drawings room_submitted @ [drawing_b]"
    by (simp add: example_defs model_defs)
  from one_submission_per_drawer
         [where db = "run ev_drawing Map.empty" and room_code = "''ABCDBA''"
            and room = room_drawing and player_id = "''id-9''" and img = "''img-x''"]
       g1 g2 g3
  have "\<exists>accepted.
         submit_drawing_and_advance_turn (run ev_drawing Map.empty) ''ABCDBA'' ''id-9'' ''img-x''
           = (Inr accepted, (run ev_drawing Map.empty)(upper ''ABCDBA'' \<mapsto> accepted))
         \<and> players accepted = players room_drawing
         \<and> submitted_drawings accepted = submitted_drawings room_drawing @
              [\<lparr> drawer_id = ''id-9'',
                 drawer_name =
                   (if ''id-9'' \<in> set (map p_id (players room_drawing))
                    then str_or (get_player_name_by_id room_drawing ''id-9'') ''Unknown Drawer''
                    else ''Unknown Drawer''),
                 topic = str_or (current_topic room_drawing) ''No Topic'',
                 image_b64 = ''img-x'' \<rparr>]"
    by blast
  with g4 v
  have x: "\<exists>accepted.
         submit_drawing_and_advance_turn (run ev_drawing Map.empty) ''ABCDBA'' ''id-9'' ''img-x''
           = (Inr accepted, (run ev_drawing Map.empty)(upper ''ABCDBA'' \<mapsto> accepted))
         \<and> players accepted = [alice, bob]
         \<and> submitted_drawings accepted = [drawing_x]"
    by (simp add: drawing_x_def)
  from h0 h1 d h2 h3 a g1 g2 g3 g4 x show ?thesis
    by blast
qed

text \<open>
  Claim C6 as stated (every drawer id is the id of a player of the room at submission
  time) fails: in the drawing phase a submission under the id \<open>id-9\<close>, which no player of
  the room has, is accepted and stored.
\<close>

theorem submission_by_non_member:
  "reachable (run ev_drawing Map.empty)
   \<and> run ev_drawing Map.empty ''ABCDBA'' = Some room_drawing
   \<and> ''id-9'' \<notin> set (map p_id (players room_drawing))
   \<and> submit_drawing_and_advance_turn (run ev_drawing Map.empty) ''ABCDBA'' ''id-9'' ''img-x''
       = (Inr room_intruder, [''ABCDBA'' \<mapsto> room_intruder])
   \<and> ''id-9'' \<in> set (map drawer_id (submitted_drawings room_intruder))"
proof -
  have "reachable (run ev_drawing Map.empty)"
    by (rule reachable_run_empty)
  moreover have "run ev_drawing Map.empty ''ABCDBA'' = Some room_drawing"
    by (simp add: run_ev_drawing)
  moreover have "''id-9'' \<notin> set (map p_id (players room_drawing))"
    by (simp add: example_defs)
  moreover have "submit_drawing_and_advance_turn (run ev_drawing Map.empty) ''ABCDBA'' ''id-9'' ''img-x''
       = (Inr room_intruder, [''ABCDBA'' \<mapsto> room_intruder])"
    by (simp add: run_ev_drawing model_defs example_defs)
  moreover have "''id-9'' \<in> set (map drawer_id (submitted_drawings room_intruder))"
    by (simp add: example_defs)
  ultimately show ?thesis by simp
qed

subsection \<open>Rejected requests\<close>

lemma join_rejected: "join_existing_room db rc nid pn = (Inl e, db') \<Longrightarrow> db' = db"
  by (auto simp: join_existing_room_def Let_def split: option.splits if_splits)

lemma leave_rejected:
  "leave_room db rc pid = (Inl e, db') \<Longrightarrow> e \<noteq> RoomClosed \<Longrightarrow> db' = db \<and> e = NotFound"
  by (auto simp: leave_room_def Let_def remove_from_draw_order_same
           split: option.splits if_splits)

lemma start_rejected: "start_game db rc pid rnd now = (Inl e, db') \<Longrightarrow> db' = db"
  by (auto simp: start_game_def Let_def split: option.splits if_splits)

lemma submit_rejected: "submit_drawing_and_advance_turn db rc pid img = (Inl e, db') \<Longrightarrow> db' = db"
  by (auto simp: submit_drawing_and_advance_turn_def Let_def split: option.splits if_splits)

lemma judge_rejected: "judge_action db rc result = (Inl e, db') \<Longrightarrow> db' = db"
  by (auto simp: judge_action_def split: sum.splits)

lemma get_rejected: "get_room_details db rc now result = (Inl e, db') \<Longrightarrow> db' = db"
  by (auto simp: get_room_details_def Let_def split: option.splits if_splits)

lemma play_again_rejected:
  assumes "play_again db rc pid rnd now = (Inl e, db')"
  shows "db' = db
       \<or> (\<exists>room. e = BadRequest \<and> db (upper rc) = Some room \<and> host_id room = pid
              \<and> game_phase room = GAME_OVER
              \<and> int (length (players room)) < MIN_PLAYERS_TO_START
              \<and> db' = db(upper rc \<mapsto> reset_game_state_fields room LOBBY))"
  using assms
  by (auto simp: play_again_def Let_def split: option.splits if_splits)

lemma play_again_below_minimum:
  assumes "db (upper room_code) = Some room"
    and "game_phase room = GAME_OVER"
    and "int (length (players room)) < MIN_PLAYERS_TO_START"
  shows "play_again db room_code (host_id room) rnd now
           = (Inl BadRequest, db(upper room_code \<mapsto> reset_game_state_fields room LOBBY))"
  using assms by (simp add: play_again_def)

text \<open>
  Claim C4 (no partial mutation), as the code has it. A request answered with
  \<open>NotFound\<close>, \<open>Forbidden\<close> or \<open>BadRequest\<close> leaves the registry exactly as it was,
  with one exception: play-again by the host of a room in phase \<open>GAME_OVER\<close> with fewer
  than \<open>MIN_PLAYERS_TO_START\<close> players. That request is always answered with
  \<open>BadRequest\<close>, and the room is stored reset to the lobby: phase \<open>LOBBY\<close>, no topic,
  no start time, no drawings.
\<close>

theorem rejected_request_state:
  "(perform a db = (Inl e, db') \<longrightarrow> e = NotFound \<or> e = Forbidden \<or> e = BadRequest
      \<longrightarrow> db' = db
          \<or> (\<exists>room_code player_id rnd now room.
                a = PlayAgain room_code player_id rnd now \<and> e = BadRequest
                \<and> db (upper room_code) = Some room \<and> host_id room = player_id
                \<and> game_phase room = GAME_OVER
                \<and> int (length (players room)) < MIN_PLAYERS_TO_START
                \<and> db' = db(upper room_code \<mapsto> reset_game_state_fields room LOBBY)))
   \<and> (db (upper code0) = Some room0 \<longrightarrow> game_phase room0 = GAME_OVER
        \<longrightarrow> int (length (players room0)) < MIN_PLAYERS_TO_START
        \<longrightarrow> perform (PlayAgain code0 (host_id room0) rnd0 now0) db
              = (Inl BadRequest, db(upper code0 \<mapsto> reset_game_state_fields room0 LOBBY))
            \<and> reset_game_state_fields room0 LOBBY
                = room0\<lparr>game_phase := LOBBY, current_topic := None, round_start_time := None,
                        submitted_drawings := []\<rparr>)"
proof (intro conjI impI)
  assume p: "perform a db = (Inl e, db')"
    and e: "e = NotFound \<or> e = Forbidden \<or> e = BadRequest"
  show "db' = db
       \<or> (\<exists>room_code player_id rnd now room.
             a = PlayAgain room_code player_id rnd now \<and> e = BadRequest
             \<and> db (upper room_code) = Some room \<and> host_id room = player_id
             \<and> game_phase room = GAME_OVER
             \<and> int (length (players room)) < MIN_PLAYERS_TO_START
             \<and> db' = db(upper room_code \<mapsto> reset_game_state_fields room LOBBY))"
  proof (cases a)
    case (Join rc nid pn)
    with p show ?thesis by (auto dest: join_rejected)
  next
    case (Leave rc pid)
    with p e show ?thesis by (auto dest: leave_rejected)
  next
    case (Start rc pid rnd now)
    with p show ?thesis by (auto dest: start_rejected)
  next
    case (Submit rc pid img)
    with p show ?thesis by (auto dest: submit_rejected)
  next
    case (PlayAgain rc pid rnd now)
    with p have "play_again db rc pid rnd now = (Inl e, db')" by simp
    from play_again_rejected [OF this] PlayAgain show ?thesis by blast
  next
    case (Judge rc result)
    with p show ?thesis by (auto dest: judge_rejected)
  next
    case (Get rc now result)
    with p show ?thesis by (auto dest: get_rejected)
  qed
next
  assume "db (upper code0) = Some room0" and "game_phase room0 = GAME_OVER"
    and "int (length (players room0)) < MIN_PLAYERS_TO_START"
  then show "perform (PlayAgain code0 (host_id room0) rnd0 now0) db
              = (Inl BadRequest, db(upper code0 \<mapsto> reset_game_state_fields room0 LOBBY))"
    by (simp add: play_again_below_minimum)
next
  show "reset_game_state_fields room0 LOBBY
                = room0\<lparr>game_phase := LOBBY, current_topic := None, round_start_time := None,
                        submitted_drawings := []\<rparr>"
    by (simp add: reset_game_state_fields_def)
qed

theorem rejected_request_state_witness:
  "perform (Join ''ABCDBA'' ''id-3'' ''Carol'') (run ev_drawing Map.empty)
     = (Inl Forbidden, run ev_drawing Map.empty)
   \<and> run ev_abort Map.empty (upper ''ABCDBA'') = Some room_abort
   \<and> game_phase room_abort = GAME_OVER
   \<and> int (length (players room_abort)) < MIN_PLAYERS_TO_START
   \<and> perform (PlayAgain ''ABCDBA'' (host_id room_abort) 7 9000000) (run ev_abort Map.empty)
       = (Inl BadRequest,
          (run ev_abort Map.empty)(upper ''ABCDBA'' \<mapsto> reset_game_state_fields room_abort LOBBY))
   \<and> reset_game_state_fields room_abort LOBBY = room_relobby"
proof -
  have h1: "perform (Join ''ABCDBA'' ''id-3'' ''Carol'') (run ev_drawing Map.empty)
     = (Inl Forbidden, run ev_drawing Map.empty)"
    by (simp add: run_ev_drawing model_defs example_defs)
  have h2: "run ev_abort Map.empty (upper ''ABCDBA'') = Some room_abort"
    by (simp add: run_ev_abort upper_ABCDBA)
  have h3: "game_phase room_abort = GAME_OVER"
    by (simp add: example_defs)
  have h4: "int (length (players room_abort)) < MIN_PLAYERS_TO_START"
    by (simp add: example_defs MIN_PLAYERS_TO_START_def)
  have e: "reset_game_state_fields room_abort LOBBY = room_relobby"
    by (simp add: reset_game_state_fields_def example_defs)
  note t = rejected_request_state
             [where db = "run ev_abort Map.empty" and ?code0.0 = "''ABCDBA''"
                and ?room0.0 = room_abort and ?rnd0.0 = 7 and ?now0.0 = 9000000]
  from t h2 h3 h4
  have "perform (PlayAgain ''ABCDBA'' (host_id room_abort) 7 9000000) (run ev_abort Map.empty)
       = (Inl BadRequest,
          (run ev_abort Map.empty)(upper ''ABCDBA'' \<mapsto> reset_game_state_fields room_abort LOBBY))"
    by blast
  with h1 h2 h3 h4 e show ?thesis by blast
qed

text \<open>
  Claim C4 as stated fails at that exception: Alice, alone after Bob left during the
  round, asks to play again. The answer is \<open>BadRequest\<close> and the stored room has
  changed: its phase is \<open>LOBBY\<close> and its start time is cleared.
\<close>

theorem play_again_shortfall_resets:
  "reachable (run ev_abort Map.empty)
   \<and> run ev_abort Map.empty = [''ABCDBA'' \<mapsto> room_abort]
   \<and> play_again (run ev_abort Map.empty) ''ABCDBA'' ''id-1'' 7 9000000
       = (Inl BadRequest, [''ABCDBA'' \<mapsto> room_relobby])
   \<and> room_relobby \<noteq> room_abort
   \<and> game_phase room_abort = GAME_OVER \<and> round_start_time room_abort = Some 1000000
   \<and> game_phase room_relobby = LOBBY \<and> round_start_time room_relobby = None"
proof -
  have "reachable (run ev_abort Map.empty)"
    by (rule reachable_run_empty)
  moreover have "play_again (run ev_abort Map.empty) ''ABCDBA'' ''id-1'' 7 9000000
       = (Inl BadRequest, [''ABCDBA'' \<mapsto> room_relobby])"
    by (simp add: run_ev_abort model_defs example_defs)
  moreover have "room_relobby \<noteq> room_abort"
    by (simp add: example_defs)
  moreover have "game_phase room_abort = GAME_OVER \<and> round_start_time room_abort = Some 1000000
   \<and> game_phase room_relobby = LOBBY \<and> round_start_time room_relobby = None"
    by (simp add: example_defs)
  ultimately show ?thesis by (simp add: run_ev_abort)
qed

subsection \<open>Judgment\<close>

lemma reset_keeps_judgment:
  "judgment_result (reset_game_state_fields room new_phase) = judgment_result room"
  by (simp add: reset_game_state_fields_def)

text \<open>
  A read keeps a judgment that is already there: the guard of \<^verbatim>\<open>get_room_details\<close>
  asks for \<open>judgment_result\<close> to be absent.
\<close>

lemma get_keeps_judgment:
  assumes "db (upper room_code) = Some room"
    and "judgment_result room = Some j"
    and "get_room_details db room_code now result = (Inr room', db')"
  shows "judgment_result room' = Some j"
  using assms
  by (auto simp: get_room_details_def Let_def split: option.splits if_splits)

text \<open>
  Claim C1 (judgment at most once per round). The claim: once \<open>judgment_result\<close> is
  set, neither the judge action nor a read recomputes or overwrites it. The judge
  action does: after a round of Alice and Bob, the first read stores the result of a
  failed call to the judge; a judge request then runs the judgment again and stores
  another result.
\<close>

theorem judge_overwrites_judgment:
  "reachable (run ev_judged Map.empty)
   \<and> run ev_judged Map.empty ''ABCDBA'' = Some room_judged
   \<and> game_phase room_judged = GAME_OVER
   \<and> judgment_result room_judged = Some judgment_failed
   \<and> judge_action (run ev_judged Map.empty) ''ABCDBA'' bob_wins
       = (Inr room_judged, [''ABCDBA'' \<mapsto> room_rejudged])
   \<and> judgment_result room_rejudged = Some judgment_bob
   \<and> judgment_bob \<noteq> judgment_failed"
proof -
  have "reachable (run ev_judged Map.empty)"
    by (rule reachable_run_empty)
  moreover have "run ev_judged Map.empty ''ABCDBA'' = Some room_judged"
    by (simp add: run_ev_judged)
  moreover have "judge_action (run ev_judged Map.empty) ''ABCDBA'' bob_wins
       = (Inr room_judged, [''ABCDBA'' \<mapsto> room_rejudged])"
    by (simp add: run_ev_judged model_defs example_defs)
  moreover have "game_phase room_judged = GAME_OVER
    \<and> judgment_result room_judged = Some judgment_failed
    \<and> judgment_result room_rejudged = Some judgment_bob
    \<and> judgment_bob \<noteq> judgment_failed"
    by (simp add: example_defs)
  ultimately show ?thesis by simp
qed

text \<open>
  Claim C2 (judgment cleared on reset). The claim: after a successful start or
  play-again the room has no \<open>judgment_result\<close>. The reset leaves the field as it is:
  after the judged round above Alice plays again, the room is in the drawing phase with
  no drawings, and it still holds the judgment of the round before.
\<close>

theorem play_again_keeps_judgment:
  "reachable (run ev_judged Map.empty)
   \<and> run ev_judged Map.empty ''ABCDBA'' = Some room_judged
   \<and> judgment_result room_judged = Some judgment_failed
   \<and> play_again (run ev_judged Map.empty) ''ABCDBA'' ''id-1'' 36 200000000
       = (Inr room_again, [''ABCDBA'' \<mapsto> room_again])
   \<and> game_phase room_again = DRAWING
   \<and> submitted_drawings room_again = []
   \<and> judgment_result room_again = Some judgment_failed"
proof -
  have "reachable (run ev_judged Map.empty)"
    by (rule reachable_run_empty)
  moreover have "run ev_judged Map.empty ''ABCDBA'' = Some room_judged"
    by (simp add: run_ev_judged)
  moreover have "play_again (run ev_judged Map.empty) ''ABCDBA'' ''id-1'' 36 200000000
       = (Inr room_again, [''ABCDBA'' \<mapsto> room_again])"
    by (simp add: run_ev_judged model_defs example_defs)
  moreover have "judgment_result room_judged = Some judgment_failed
    \<and> game_phase room_again = DRAWING \<and> submitted_drawings room_again = []
    \<and> judgment_result room_again = Some judgment_failed"
    by (simp add: example_defs)
  ultimately show ?thesis by simp
qed

end
